theory Spec2Isabelle
  imports Main "HOL-Library.Word" "HOL-Library.AList"
begin

unbundle bit_operations_syntax

section \<open>Python values used by extract.py\<close>

text \<open>
  Python \<open>str\<close> values are modelled as HOL strings. A HOL character has eight bits, so the
  model covers the code points 0..255 (Latin-1); the character predicates below are
  Python's \<open>str.isalnum\<close> and \<open>str.isspace\<close> restricted to that range. Python \<open>bytes\<close>
  are lists of 8-bit words, Python integers are \<open>int\<close>.
\<close>

type_synonym bytes = "8 word list"

definition isalnum :: "char \<Rightarrow> bool" where
  "isalnum c = (let n = (of_char c :: nat) in
     (48 \<le> n \<and> n \<le> 57) \<or> (65 \<le> n \<and> n \<le> 90) \<or> (97 \<le> n \<and> n \<le> 122) \<or>
     n = 170 \<or> n = 178 \<or> n = 179 \<or> n = 181 \<or> n = 185 \<or> n = 186 \<or>
     (188 \<le> n \<and> n \<le> 190) \<or> (192 \<le> n \<and> n \<le> 214) \<or>
     (216 \<le> n \<and> n \<le> 246) \<or> (248 \<le> n \<and> n \<le> 255))"

definition isspace :: "char \<Rightarrow> bool" where
  "isspace c = (let n = (of_char c :: nat) in
     (9 \<le> n \<and> n \<le> 13) \<or> (28 \<le> n \<and> n \<le> 32) \<or> n = 133 \<or> n = 160)"

text \<open>\<open>s.strip()\<close>: leading and trailing whitespace removed.\<close>

definition strip :: "string \<Rightarrow> string" where
  "strip s = rev (dropWhile isspace (rev (dropWhile isspace s)))"

text \<open>\<open>str(n)\<close> for an integer: decimal digits, with a minus sign when negative.\<close>

definition digit_char :: "nat \<Rightarrow> char" where
  "digit_char d = ''0123456789'' ! d"

fun str_nat :: "nat \<Rightarrow> string" where
  "str_nat n = (if n < 10 then [digit_char n] else str_nat (n div 10) @ [digit_char (n mod 10)])"

declare str_nat.simps [simp del]

definition str_int :: "int \<Rightarrow> string" where
  "str_int i = (if i < 0 then CHR ''-'' # str_nat (nat (- i)) else str_nat (nat i))"

section \<open>Name sanitising and deduplication\<close>

text \<open>
  \<open>safe_name(name)\<close>: \<open>None\<close> and the empty string are falsy and give the fallback;
  any other string has each character outside the kept set replaced by an underscore and
  is then stripped.
\<close>

definition keep_char :: "char \<Rightarrow> bool" where
  "keep_char c = (isalnum c \<or> c \<in> set ''._- '')"

definition safe_name :: "string option \<Rightarrow> string" where
  "safe_name name =
     (case name of
        None \<Rightarrow> ''unnamed''
      | Some s \<Rightarrow>
          if s = [] then ''unnamed''
          else strip (map (\<lambda>c. if keep_char c then c else CHR ''_'') s))"

text \<open>
  The deduplication step of \<open>extract_apk\<close> (the \<open>seen_names\<close> dictionary): a name already
  present has its counter incremented and the new counter appended; a new name is
  registered with counter 0 and returned as it is.
\<close>

type_synonym registry = "string \<rightharpoonup> int"

definition resolve :: "registry \<Rightarrow> string \<Rightarrow> string \<times> registry" where
  "resolve seen_names name =
     (case seen_names name of
        Some c \<Rightarrow> (name @ ''_'' @ str_int (c + 1), seen_names(name \<mapsto> c + 1))
      | None \<Rightarrow> (name, seen_names(name \<mapsto> 0)))"

section \<open>The type table\<close>

text \<open>
  One row of \<open>TYPE_META\<close>: the keys \<open>type\<close>, \<open>emoji\<close> and \<open>ext\<close>. The emoji is kept as
  its list of Unicode code points.
\<close>

record type_meta =
  meta_type :: string
  meta_emoji :: "nat list"
  meta_ext :: string

definition TYPE_META_rows :: "(string \<times> type_meta) list" where
  "TYPE_META_rows =
    [(''Texture2D'',     \<lparr>meta_type = ''texture'',  meta_emoji = [0x1F5BC], meta_ext = ''png''\<rparr>),
     (''Sprite'',        \<lparr>meta_type = ''texture'',  meta_emoji = [0x1F5BC], meta_ext = ''png''\<rparr>),
     (''AudioClip'',     \<lparr>meta_type = ''audio'',    meta_emoji = [0x1F50A], meta_ext = ''wav''\<rparr>),
     (''Mesh'',          \<lparr>meta_type = ''mesh'',     meta_emoji = [0x1F9CA], meta_ext = ''obj''\<rparr>),
     (''TextAsset'',     \<lparr>meta_type = ''text'',     meta_emoji = [0x1F4C4], meta_ext = ''txt''\<rparr>),
     (''MonoBehaviour'', \<lparr>meta_type = ''script'',   meta_emoji = [0x1F4DC], meta_ext = ''json''\<rparr>),
     (''Font'',          \<lparr>meta_type = ''font'',     meta_emoji = [0x1F524], meta_ext = ''ttf''\<rparr>),
     (''Shader'',        \<lparr>meta_type = ''shader'',   meta_emoji = [0x2728],  meta_ext = ''txt''\<rparr>),
     (''Material'',      \<lparr>meta_type = ''material'', meta_emoji = [0x1F3A8], meta_ext = ''mat''\<rparr>),
     (''AnimationClip'', \<lparr>meta_type = ''anim'',     meta_emoji = [0x1F3AC], meta_ext = ''anim''\<rparr>),
     (''GameObject'',    \<lparr>meta_type = ''prefab'',   meta_emoji = [0x1F9E9], meta_ext = ''json''\<rparr>)]"

definition TYPE_META :: "string \<Rightarrow> type_meta option" where
  "TYPE_META = map_of TYPE_META_rows"

section \<open>Objects of the asset source\<close>

text \<open>
  An exception value carries its class name, \<open>str(e)\<close> and the rendered stack frames;
  \<open>format_exc\<close> is the text \<open>traceback.format_exc()\<close> builds from them.
\<close>

datatype exn = Exn (exn_class: string) (exn_str: string) (exn_frames: string)

definition newline :: char where
  "newline = CHR 0x0A"

definition format_exc :: "exn \<Rightarrow> string" where
  "format_exc e =
     ''Traceback (most recent call last):'' @ [newline] @ exn_frames e @ exn_class e @
     (if exn_str e = [] then [] else '': '' @ exn_str e) @ [newline]"

text \<open>
  A float is carried by its \<open>repr\<close> text, which is what an f-string prints for it.
\<close>

datatype pynum = PyInt int | PyFloat string

fun str_num :: "pynum \<Rightarrow> string" where
  "str_num (PyInt i) = str_int i"
| "str_num (PyFloat r) = r"

text \<open>
  The result of \<open>img.save(path)\<close> for a \<open>.png\<close> path: an error, or the chunk stream
  that follows the eight-byte PNG signature in the file.
\<close>

type_synonym pil_image = "exn + bytes"

datatype script = ScriptBytes bytes | ScriptStr string

text \<open>The truth value of a script payload: empty bytes and the empty string are false.\<close>

fun falsy :: "script \<Rightarrow> bool" where
  "falsy (ScriptBytes b) = (b = [])"
| "falsy (ScriptStr s) = (s = [])"

text \<open>
  The typed payload \<open>obj.parse_as_object()\<close> returns. Each attribute read either raises
  (\<open>Inl\<close>) or gives its value; \<open>None\<close> stands for an absent or \<open>None\<close> attribute.
\<close>

record payload =
  m_Name :: "exn + string option"
  image_attr :: "exn + pil_image option"
  samples :: "exn + (string \<times> bytes) list"
  m_Script :: "exn + script option"

text \<open>
  The dictionary \<open>obj.parse_as_dict()\<close> returns: the two keys the mesh branch reads, and
  what \<open>json.dump\<close> does with the dictionary, an error or the text of its members, written
  between an opening and a closing brace.
\<close>

record typetree =
  m_Vertices :: "pynum list option"
  m_IndexBuffer :: "int list option"
  json_members :: "exn + string"

text \<open>
  One object of \<open>env.objects\<close>, together with how the file system answers while the
  object is handled: \<open>makedirs_fault\<close> is the error of \<open>os.makedirs\<close> on the destination
  directory, \<open>open_fault\<close> the error of opening (or saving to) the destination file.
\<close>

record obj =
  type_name :: string
  parse_as_object :: "exn + payload"
  parse_as_dict :: "exn + typetree"
  assets_file_name :: "string option"
  makedirs_fault :: "exn option"
  open_fault :: "exn option"

section \<open>Writing the files\<close>

definition utf8_char :: "char \<Rightarrow> bytes" where
  "utf8_char c = (let n = (of_char c :: nat) in
     if n < 128 then [of_nat n] else [of_nat (192 + n div 64), of_nat (128 + n mod 64)])"

definition utf8 :: "string \<Rightarrow> bytes" where
  "utf8 s = concat (map utf8_char s)"

definition png_signature :: bytes where
  "png_signature = [0x89, 0x50, 0x4E, 0x47, 0x0D, 0x0A, 0x1A, 0x0A]"

text \<open>\<open>os.path.join(a, b)\<close> on a POSIX system.\<close>

definition path_join :: "string \<Rightarrow> string \<Rightarrow> string" where
  "path_join a b =
     (if b \<noteq> [] \<and> hd b = CHR ''/'' then b
      else if a = [] \<or> last a = CHR ''/'' then a @ b
      else a @ ''/'' @ b)"

text \<open>
  The two loops of the mesh branch. Each round formats three consecutive elements; a
  list whose length is not a multiple of three makes the last round raise IndexError
  (\<open>None\<close>).
\<close>

definition v_line :: "pynum \<Rightarrow> pynum \<Rightarrow> pynum \<Rightarrow> string" where
  "v_line x y z = ''v '' @ str_num x @ '' '' @ str_num y @ '' '' @ str_num z @ [newline]"

definition f_line :: "int \<Rightarrow> int \<Rightarrow> int \<Rightarrow> string" where
  "f_line a b c =
     ''f '' @ str_int (a + 1) @ '' '' @ str_int (b + 1) @ '' '' @ str_int (c + 1) @ [newline]"

fun vertex_lines :: "pynum list \<Rightarrow> string list option" where
  "vertex_lines [] = Some []"
| "vertex_lines (x # y # z # rest) = map_option ((#) (v_line x y z)) (vertex_lines rest)"
| "vertex_lines _ = None"

fun face_lines :: "int list \<Rightarrow> string list option" where
  "face_lines [] = Some []"
| "face_lines (a # b # c # rest) = map_option ((#) (f_line a b c)) (face_lines rest)"
| "face_lines _ = None"

definition mesh_header :: "string \<Rightarrow> string" where
  "mesh_header name = ''# Exported by UnityRip'' @ [newline] @ ''# Mesh: '' @ name @ [newline]"

definition mesh_text :: "string \<Rightarrow> typetree \<Rightarrow> string option" where
  "mesh_text name mesh_data =
     (let verts = (case m_Vertices mesh_data of None \<Rightarrow> [] | Some vs \<Rightarrow> vs) in
      case vertex_lines verts of
        None \<Rightarrow> None
      | Some vls \<Rightarrow>
          (let indices = (case m_IndexBuffer mesh_data of None \<Rightarrow> [] | Some ixs \<Rightarrow> ixs) in
           case face_lines indices of
             None \<Rightarrow> None
           | Some fls \<Rightarrow> Some (mesh_header name @ concat vls @ concat fls)))"

text \<open>The structured dump: \<open>json.dump\<close> of the dictionary, encoded as UTF-8.\<close>

definition dump_json :: "obj \<Rightarrow> bytes option" where
  "dump_json ob =
     (case parse_as_dict ob of
        Inl e \<Rightarrow> None
      | Inr d \<Rightarrow>
          (case open_fault ob of
             Some e \<Rightarrow> None
           | None \<Rightarrow>
               (case json_members d of
                  Inl e \<Rightarrow> None
                | Inr members \<Rightarrow> Some (utf8 (''{'' @ members @ ''}'')))))"

text \<open>
  The export branches of \<open>extract_apk\<close>, in the order of the \<open>if\<close>/\<open>elif\<close> chain. The
  result is the content of the destination file when the branch sets \<open>wrote\<close>, and
  \<open>None\<close> when \<open>wrote\<close> stays false; every inner \<open>except Exception: pass\<close> is a \<open>None\<close>.
\<close>

definition export_asset :: "obj \<Rightarrow> payload \<Rightarrow> string \<Rightarrow> bytes option" where
  "export_asset ob data name =
     (if type_name ob = ''Texture2D'' \<or> type_name ob = ''Sprite'' then
        (case image_attr data of
           Inl e \<Rightarrow> None
         | Inr None \<Rightarrow> None
         | Inr (Some img) \<Rightarrow>
             (case open_fault ob of
                Some e \<Rightarrow> None
              | None \<Rightarrow>
                  (case img of Inl e \<Rightarrow> None | Inr chunks \<Rightarrow> Some (png_signature @ chunks))))
      else if type_name ob = ''AudioClip'' then
        (case samples data of
           Inl e \<Rightarrow> None
         | Inr items \<Rightarrow>
             (case find (\<lambda>(clip_name, clip_data). clip_data \<noteq> []) items of
                None \<Rightarrow> None
              | Some (clip_name, clip_data) \<Rightarrow>
                  (case open_fault ob of Some e \<Rightarrow> None | None \<Rightarrow> Some clip_data)))
      else if type_name ob = ''TextAsset'' then
        (case m_Script data of
           Inl e \<Rightarrow> None
         | Inr None \<Rightarrow> None
         | Inr (Some script) \<Rightarrow>
             if falsy script then None
             else
               (let content = (case script of ScriptBytes b \<Rightarrow> b | ScriptStr s \<Rightarrow> utf8 s) in
                case open_fault ob of Some e \<Rightarrow> None | None \<Rightarrow> Some content))
      else if type_name ob = ''MonoBehaviour'' \<or> type_name ob = ''GameObject'' then
        dump_json ob
      else if type_name ob = ''Mesh'' then
        (case parse_as_dict ob of
           Inl e \<Rightarrow> None
         | Inr mesh_data \<Rightarrow>
             (case open_fault ob of
                Some e \<Rightarrow> None
              | None \<Rightarrow> map_option utf8 (mesh_text name mesh_data)))
      else dump_json ob)"

section \<open>The extraction loop\<close>

text \<open>
  \<open>fmt_bytes(b)\<close>. The quotients \<open>b/1024\<close> and \<open>b/1024**2\<close> are divisions by a power of two,
  exact in binary floating point for every \<open>b\<close> below \<open>2^53\<close>, and \<open>:.1f\<close> rounds the exact
  value to one decimal, ties to the even digit. \<open>one_decimal b d\<close> is that rendering,
  computed on integers: the number of tenths, rounded half to even.
\<close>

definition one_decimal :: "int \<Rightarrow> int \<Rightarrow> string" where
  "one_decimal b d =
     (let q = (10 * b) div d;
          r = (10 * b) mod d;
          t = (if 2 * r > d \<or> (2 * r = d \<and> odd q) then q + 1 else q)
      in str_int (t div 10) @ ''.'' @ str_int (t mod 10))"

definition fmt_bytes :: "int \<Rightarrow> string" where
  "fmt_bytes b =
     (if b < 1024 then str_int b @ '' B''
      else if b < 1024 ^ 2 then one_decimal b 1024 @ '' KB''
      else one_decimal b (1024 ^ 2) @ '' MB'')"

text \<open>
  One entry of the \<open>assets\<close> list. The dictionary keys \<open>name\<close>, \<open>ext\<close>, \<open>type\<close>, \<open>emoji\<close>,
  \<open>size\<close> and \<open>bundle\<close> are the fields with the prefix \<open>asset_\<close>.
\<close>

record asset_entry =
  asset_name :: string
  filename :: string
  asset_ext :: string
  asset_type :: string
  asset_emoji :: "nat list"
  unityType :: string
  relativePath :: string
  sizeBytes :: int
  asset_size :: string
  asset_bundle :: string

record state =
  assets :: "asset_entry list"
  seen_names :: registry

text \<open>
  The body of the \<open>for\<close> loop. An unknown type is skipped before the \<open>try\<close>; inside it,
  every exception reaches \<open>except Exception: continue\<close> with the state as it is at that
  point: unchanged when the parse or the name raises, with the name registered when a
  later step raises. \<open>name_or_type\<close> is \<open>getattr(data, "m_Name", None) or type_name\<close>, and
  \<open>new_entry\<close> the dictionary appended when \<open>wrote\<close> is set; its size is
  \<open>os.path.getsize\<close> of the file the branch has just written, the length of its content.
\<close>

definition name_or_type :: "obj \<Rightarrow> string option \<Rightarrow> string" where
  "name_or_type ob m_name =
     (case m_name of None \<Rightarrow> type_name ob | Some s \<Rightarrow> if s = [] then type_name ob else s)"

definition new_entry :: "type_meta \<Rightarrow> obj \<Rightarrow> string \<Rightarrow> bytes \<Rightarrow> asset_entry" where
  "new_entry meta ob name content =
     (let ext = meta_ext meta;
          rel_path = path_join (meta_type meta) (name @ ''.'' @ ext);
          size = int (length content)
      in \<lparr>asset_name = name,
          filename = name @ ''.'' @ ext,
          asset_ext = ext,
          asset_type = meta_type meta,
          asset_emoji = meta_emoji meta,
          unityType = type_name ob,
          relativePath = rel_path,
          sizeBytes = size,
          asset_size = fmt_bytes size,
          asset_bundle = (case assets_file_name ob of None \<Rightarrow> ''unknown'' | Some b \<Rightarrow> b)\<rparr>)"

definition process :: "state \<Rightarrow> obj \<Rightarrow> state" where
  "process st ob =
     (case TYPE_META (type_name ob) of
        None \<Rightarrow> st
      | Some meta \<Rightarrow>
          (case parse_as_object ob of
             Inl e \<Rightarrow> st
           | Inr data \<Rightarrow>
               (case m_Name data of
                  Inl e \<Rightarrow> st
                | Inr m_name \<Rightarrow>
                    (case resolve (seen_names st) (safe_name (Some (name_or_type ob m_name))) of
                       (name, seen) \<Rightarrow>
                         (case makedirs_fault ob of
                            Some e \<Rightarrow> st\<lparr>seen_names := seen\<rparr>
                          | None \<Rightarrow>
                              (case export_asset ob data name of
                                 None \<Rightarrow> st\<lparr>seen_names := seen\<rparr>
                               | Some content \<Rightarrow>
                                   \<lparr>assets = assets st @ [new_entry meta ob name content],
                                    seen_names = seen\<rparr>))))))"

text \<open>
  What \<open>UnityPy.load\<close> returns: the objects the iteration yields, and the error that ends
  the iteration after them, if any.
\<close>

record source =
  objects :: "obj list"
  iter_fault :: "exn option"

text \<open>
  The surroundings of a run: the error of \<open>os.makedirs(out_dir)\<close>, the result of
  \<open>UnityPy.load(apk_path)\<close>, and the error of creating or writing the manifest file.
\<close>

record world =
  makedirs_out :: "string \<Rightarrow> exn option"
  load :: "string \<Rightarrow> exn + source"
  manifest_fault :: "string \<Rightarrow> exn option"

definition init_state :: state where
  "init_state = \<lparr>assets = [], seen_names = Map.empty\<rparr>"

definition extract_apk :: "world \<Rightarrow> string \<Rightarrow> string \<Rightarrow> exn + asset_entry list" where
  "extract_apk w apk_path out_dir =
     (case makedirs_out w out_dir of
        Some e \<Rightarrow> Inl e
      | None \<Rightarrow>
          (case load w apk_path of
             Inl e \<Rightarrow> Inl e
           | Inr env \<Rightarrow>
               (let st = foldl process init_state (objects env) in
                case iter_fault env of
                  Some e \<Rightarrow> Inl e
                | None \<Rightarrow> Inr (assets st))))"

section \<open>Statistics and the manifest\<close>

record stats =
  stats_total :: int
  byType :: "(string \<times> int) list"
  totalSize :: string
  bundleCount :: int

text \<open>
  The loop of \<open>build_stats\<close>: the pair of \<open>by_type\<close> (a dictionary in insertion order) and
  \<open>total\<close>, named \<open>total_size\<close> here; \<open>get0 by_type k\<close> is \<open>by_type.get(k, 0)\<close>.
\<close>

definition get0 :: "(string \<times> int) list \<Rightarrow> string \<Rightarrow> int" where
  "get0 by_type k = (case map_of by_type k of None \<Rightarrow> 0 | Some n \<Rightarrow> n)"

definition count_asset ::
  "(string \<times> int) list \<times> int \<Rightarrow> asset_entry \<Rightarrow> (string \<times> int) list \<times> int" where
  "count_asset acc a =
     (case acc of (by_type, total_size) \<Rightarrow>
        (AList.update (asset_type a) (get0 by_type (asset_type a) + 1) by_type,
         total_size + sizeBytes a))"

definition build_stats :: "asset_entry list \<Rightarrow> stats" where
  "build_stats as =
     (case foldl count_asset ([], 0) as of (by_type, total_size) \<Rightarrow>
        \<lparr>stats_total = int (length as),
         byType = by_type,
         totalSize = fmt_bytes total_size,
         bundleCount = int (card (set (map asset_bundle as)))\<rparr>)"

datatype manifest =
  Success "asset_entry list" stats
| Failure string string

fun ok :: "manifest \<Rightarrow> bool" where
  "ok (Success as st) = True"
| "ok (Failure err trace) = False"

text \<open>
  The script body: the manifest written (if any) and the exit code. Fewer than three
  arguments print the usage and exit with 1; an error of writing the manifest is not
  caught, so the interpreter exits with 1 and no manifest.
\<close>

definition main :: "world \<Rightarrow> string list \<Rightarrow> manifest option \<times> int" where
  "main w argv =
     (if length argv < 4 then (None, 1)
      else
        (let apk_path = argv ! 1;
             out_dir = argv ! 2;
             manifest_path = argv ! 3;
             result = (case extract_apk w apk_path out_dir of
                         Inr as \<Rightarrow> Success as (build_stats as)
                       | Inl e \<Rightarrow> Failure (exn_str e) (format_exc e))
         in case manifest_fault w manifest_path of
              Some e \<Rightarrow> (None, 1)
            | None \<Rightarrow> (Some result, if ok result then 0 else 1)))"

section \<open>Notions used to state the properties\<close>

text \<open>The number a string of decimal digits denotes.\<close>

definition digits_value :: "string \<Rightarrow> nat" where
  "digits_value s = foldl (\<lambda>a c. 10 * a + (of_char c - 48)) 0 s"

text \<open>
  Successive runs of the deduplication step on a list of names, threading the registry:
  the names returned, in call order, and the final registry.
\<close>

fun resolve_all :: "registry \<Rightarrow> string list \<Rightarrow> string list \<times> registry" where
  "resolve_all reg [] = ([], reg)"
| "resolve_all reg (n # ns) =
     (case resolve reg n of (r, seen) \<Rightarrow>
        (case resolve_all seen ns of (rs, seen') \<Rightarrow> (r # rs, seen')))"

text \<open>
  Of the names \<open>rs\<close> returned for the calls with the names \<open>ns\<close>, those returned for
  the calls with \<open>base\<close>.
\<close>

definition results_for :: "string \<Rightarrow> string list \<Rightarrow> string list \<Rightarrow> string list" where
  "results_for base ns rs = map snd (filter (\<lambda>(n, r). n = base) (zip ns rs))"

text \<open>The name the \<open>k\<close>-th call with the same base name is expected to return.\<close>

definition numbered :: "string \<Rightarrow> nat \<Rightarrow> string" where
  "numbered base k = (if k = 0 then base else base @ ''_'' @ str_int (int k))"

text \<open>The replacement \<open>safe_name\<close> applies to each character.\<close>

definition sanitize_char :: "char \<Rightarrow> char" where
  "sanitize_char c = (if keep_char c then c else CHR ''_'')"

text \<open>The number of entries of a category.\<close>

definition count_of :: "asset_entry list \<Rightarrow> string \<Rightarrow> int" where
  "count_of as t = int (length (filter (\<lambda>a. asset_type a = t) as))"


text \<open>An exception of the parse or of the name computation.\<close>

definition raises_before_naming :: "obj \<Rightarrow> bool" where
  "raises_before_naming ob =
     (case parse_as_object ob of
        Inl e \<Rightarrow> True
      | Inr data \<Rightarrow> (case m_Name data of Inl e \<Rightarrow> True | Inr m_name \<Rightarrow> False))"



text \<open>A flat list cut into consecutive triples (a rest of one or two elements is dropped).\<close>

fun triples :: "'a list \<Rightarrow> ('a \<times> 'a \<times> 'a) list" where
  "triples (x # y # z # rest) = (x, y, z) # triples rest"
| "triples rest = []"


section \<open>Sample objects\<close>

text \<open>
  Objects and a world to evaluate the definitions on: an object whose attributes are all
  absent, an audio clip with one sample, a texture whose parse raises, and a world in
  which the archive loads and every directory and file can be written.
\<close>

definition attribute_error :: exn where
  "attribute_error = Exn ''AttributeError'' ''no such attribute'' []"

definition blank_payload :: payload where
  "blank_payload =
     \<lparr>m_Name = Inr None, image_attr = Inl attribute_error, samples = Inl attribute_error,
      m_Script = Inl attribute_error\<rparr>"

definition blank_tree :: typetree where
  "blank_tree = \<lparr>m_Vertices = None, m_IndexBuffer = None, json_members = Inr []\<rparr>"

definition blank_obj :: "string \<Rightarrow> obj" where
  "blank_obj t =
     \<lparr>type_name = t, parse_as_object = Inr blank_payload, parse_as_dict = Inr blank_tree,
      assets_file_name = None, makedirs_fault = None, open_fault = None\<rparr>"

definition audio_payload :: "string \<Rightarrow> bytes \<Rightarrow> payload" where
  "audio_payload n d = blank_payload\<lparr>m_Name := Inr (Some n), samples := Inr [(n, d)]\<rparr>"

definition audio_clip :: "string \<Rightarrow> bytes \<Rightarrow> obj" where
  "audio_clip n d = (blank_obj ''AudioClip'')\<lparr>parse_as_object := Inr (audio_payload n d)\<rparr>"

definition broken_texture :: obj where
  "broken_texture =
     (blank_obj ''Texture2D'')\<lparr>parse_as_object := Inl (Exn ''ValueError'' ''bad data'' [])\<rparr>"

definition world_of :: "exn + source \<Rightarrow> world" where
  "world_of src =
     \<lparr>makedirs_out = (\<lambda>p. None), load = (\<lambda>p. src), manifest_fault = (\<lambda>p. None)\<rparr>"

definition loaded :: "obj list \<Rightarrow> world" where
  "loaded objs = world_of (Inr \<lparr>objects = objs, iter_fault = None\<rparr>)"

text \<open>Three audio clips named \<open>a\<close>, \<open>a\<close> and \<open>a_1\<close>, each with one non-empty sample.\<close>

definition colliding_clips :: "obj list" where
  "colliding_clips = [audio_clip ''a'' [1], audio_clip ''a'' [2], audio_clip ''a_1'' [3]]"

text \<open>A mesh of one triangle, and a load error raised without a message.\<close>

definition triangle_tree :: typetree where
  "triangle_tree =
     blank_tree\<lparr>m_Vertices := Some [PyFloat ''0.0'', PyFloat ''0.0'', PyFloat ''0.0'',
                                    PyFloat ''1.0'', PyFloat ''0.0'', PyFloat ''0.0'',
                                    PyFloat ''0.0'', PyFloat ''1.5'', PyFloat ''0.0''],
                 m_IndexBuffer := Some [0, 1, 2]\<rparr>"

definition triangle_mesh :: obj where
  "triangle_mesh = (blank_obj ''Mesh'')\<lparr>parse_as_dict := Inr triangle_tree\<rparr>"

definition silent_error :: exn where
  "silent_error = Exn ''AssertionError'' [] []"

definition missing_file_error :: exn where
  "missing_file_error = Exn ''FileNotFoundError'' ''No such file: game.apk'' []"

text \<open>A texture with a name and an image that saves.\<close>

definition texture :: "string \<Rightarrow> bytes \<Rightarrow> obj" where
  "texture n chunks =
     (blank_obj ''Texture2D'')\<lparr>parse_as_object :=
        Inr (blank_payload\<lparr>m_Name := Inr (Some n), image_attr := Inr (Some (Inr chunks))\<rparr>)\<rparr>"

section \<open>Decimal rendering\<close>

lemma digit_char_code: "d < 10 \<Longrightarrow> (of_char (digit_char d) :: nat) = 48 + d"
proof -
  assume "d < 10"
  then have "d \<in> {0, 1, 2, 3, 4, 5, 6, 7, 8, 9}" by auto
  then show ?thesis by (auto simp: digit_char_def)
qed

lemma digits_value_snoc: "digits_value (s @ [c]) = 10 * digits_value s + (of_char c - 48)"
  by (simp add: digits_value_def)

lemma str_nat_small: "n < 10 \<Longrightarrow> str_nat n = [digit_char n]"
  by (subst str_nat.simps) simp

lemma str_nat_big:
  "\<not> n < 10 \<Longrightarrow> str_nat n = str_nat (n div 10) @ [digit_char (n mod 10)]"
  by (subst str_nat.simps) simp

lemma digits_value_str_nat: "digits_value (str_nat n) = n"
proof (induction n rule: str_nat.induct)
  case (1 n)
  show ?case
  proof (cases "n < 10")
    case True
    then show ?thesis
      by (simp add: str_nat_small digits_value_def digit_char_code)
  next
    case False
    then have "digits_value (str_nat (n div 10)) = n div 10" using 1 by simp
    moreover have "n mod 10 < 10" by simp
    ultimately show ?thesis using False
      by (simp add: str_nat_big digits_value_snoc digit_char_code)
  qed
qed

lemma str_nat_inj: "str_nat a = str_nat b \<Longrightarrow> a = b"
  by (metis digits_value_str_nat)

lemma str_int_inj_nat: "str_int (int a) = str_int (int b) \<Longrightarrow> a = b"
  by (simp add: str_int_def str_nat_inj)

section \<open>Human-readable sizes\<close>





section \<open>Sanitised names\<close>

lemma keep_char_underscore: "keep_char (CHR ''_'')"
  by (simp add: keep_char_def)

lemma keep_sanitize_char: "keep_char (sanitize_char c)"
  by (simp add: sanitize_char_def keep_char_underscore)

lemma set_strip: "set (strip s) \<subseteq> set s"
proof
  fix c
  assume "c \<in> set (strip s)"
  then have "c \<in> set (dropWhile isspace (rev (dropWhile isspace s)))"
    by (simp add: strip_def)
  then have "c \<in> set (rev (dropWhile isspace s))" by (rule set_dropWhileD)
  then have "c \<in> set (dropWhile isspace s)" by simp
  then show "c \<in> set s" by (rule set_dropWhileD)
qed

lemma safe_name_fallback: "safe_name None = ''unnamed'' \<and> safe_name (Some []) = ''unnamed''"
  by (simp add: safe_name_def)

lemma safe_name_Some:
  "s \<noteq> [] \<Longrightarrow> safe_name (Some s) = strip (map sanitize_char s)"
  by (simp add: safe_name_def sanitize_char_def [abs_def])

lemma fallback_all: "list_all keep_char ''unnamed''"
  by (simp add: keep_char_def isalnum_def)

lemma fallback_chars: "c \<in> set ''unnamed'' \<Longrightarrow> keep_char c"
  using fallback_all unfolding list_all_iff by blast

lemma safe_name_chars: "c \<in> set (safe_name n) \<Longrightarrow> keep_char c"
proof -
  assume c: "c \<in> set (safe_name n)"
  show ?thesis
  proof (cases "n = None \<or> n = Some []")
    case True
    with c have "c \<in> set ''unnamed''" by (auto simp: safe_name_def)
    then show ?thesis by (rule fallback_chars)
  next
    case False
    then obtain s where s: "n = Some s" "s \<noteq> []" by (cases n) auto
    with c have "c \<in> set (strip (map sanitize_char s))" by (simp add: safe_name_Some)
    then have "c \<in> set (map sanitize_char s)" using set_strip by blast
    then obtain x where "c = sanitize_char x" by auto
    then show ?thesis by (simp add: keep_sanitize_char)
  qed
qed

lemma strip_empty_iff: "strip s = [] \<longleftrightarrow> (\<forall>c \<in> set s. isspace c)"
proof
  assume "strip s = []"
  then have all: "\<forall>c \<in> set (dropWhile isspace s). isspace c"
    by (simp add: strip_def dropWhile_eq_Nil_conv)
  have "dropWhile isspace s = []"
  proof (rule ccontr)
    assume ne: "dropWhile isspace s \<noteq> []"
    then have "\<not> isspace (hd (dropWhile isspace s))" by (rule hd_dropWhile)
    moreover have "hd (dropWhile isspace s) \<in> set (dropWhile isspace s)" using ne by simp
    ultimately show False using all by blast
  qed
  then show "\<forall>c \<in> set s. isspace c" by (simp add: dropWhile_eq_Nil_conv)
next
  assume "\<forall>c \<in> set s. isspace c"
  then show "strip s = []" by (auto simp: strip_def dest: set_dropWhileD)
qed

lemma isspace_code: "isspace c \<Longrightarrow> (of_char c :: nat) \<le> 32 \<or> (of_char c :: nat) = 133 \<or> (of_char c :: nat) = 160"
  unfolding isspace_def Let_def by linarith

lemma isalnum_code: "isalnum c \<Longrightarrow> 48 \<le> (of_char c :: nat) \<and> (of_char c :: nat) \<noteq> 133 \<and> (of_char c :: nat) \<noteq> 160"
  unfolding isalnum_def Let_def by linarith

lemma isalnum_not_space: "isalnum c \<Longrightarrow> \<not> isspace c"
  using isspace_code [of c] isalnum_code [of c] by linarith

lemma isspace_sanitize_char: "isspace (sanitize_char c) \<longleftrightarrow> c = CHR '' ''"
proof (cases "c = CHR '' ''")
  case True
  then show ?thesis by (simp add: sanitize_char_def keep_char_def isspace_def)
next
  case False
  have u: "\<not> isspace (CHR ''_'')" by (simp add: isspace_def)
  have d: "\<not> isspace (CHR ''.'')" "\<not> isspace (CHR ''-'')" by (simp_all add: isspace_def)
  have "keep_char c \<Longrightarrow> \<not> isspace c"
    using False u d isalnum_not_space by (auto simp: keep_char_def)
  then show ?thesis using False u by (auto simp: sanitize_char_def)
qed

lemma safe_name_empty_iff:
  "safe_name (Some s) = [] \<longleftrightarrow> s \<noteq> [] \<and> set s \<subseteq> {CHR '' ''}"
proof (cases "s = []")
  case True
  then show ?thesis by (simp add: safe_name_def)
next
  case False
  then have "safe_name (Some s) = [] \<longleftrightarrow> (\<forall>c \<in> set s. isspace (sanitize_char c))"
    by (simp add: safe_name_Some strip_empty_iff)
  then show ?thesis using False by (auto simp: isspace_sanitize_char)
qed

text \<open>
  Claim C3. \<open>safe_name\<close> is expected never to return the empty string. A name made of
  one space is not empty, so the fallback does not apply; no character is replaced, and
  stripping leaves the empty string.
\<close>

theorem safe_name_blank: "safe_name (Some '' '') = []"
  by (simp add: safe_name_def strip_def keep_char_def isspace_def isalnum_def)

section \<open>Deduplicated names\<close>

lemma resolve_absent: "reg n = None \<Longrightarrow> resolve reg n = (n, reg(n \<mapsto> 0))"
  by (simp add: resolve_def)

lemma resolve_present:
  "reg n = Some c \<Longrightarrow> resolve reg n = (n @ ''_'' @ str_int (c + 1), reg(n \<mapsto> c + 1))"
  by (simp add: resolve_def)

lemma upt_shift: "map f [0..<Suc n] = f 0 # map (\<lambda>k. f (Suc k)) [0..<n]"
proof -
  have "[0..<Suc n] = 0 # map Suc [0..<n]"
    by (simp add: upt_conv_Cons map_Suc_upt del: upt_Suc)
  then show ?thesis by (simp add: comp_def del: upt_Suc)
qed

lemma resolve_all_present:
  "reg base = Some (int c) \<Longrightarrow>
   resolve_all reg (replicate n base) =
     (map (\<lambda>k. numbered base (Suc c + k)) [0..<n],
      if n = 0 then reg else reg(base \<mapsto> int (c + n)))"
proof (induction n arbitrary: reg c)
  case 0
  then show ?case by simp
next
  case (Suc n)
  let ?reg = "reg(base \<mapsto> int (Suc c))"
  have r: "resolve reg base = (numbered base (Suc c), ?reg)"
    using Suc.prems by (simp add: resolve_present numbered_def add.commute)
  have ih: "resolve_all ?reg (replicate n base) =
     (map (\<lambda>k. numbered base (Suc (Suc c) + k)) [0..<n],
      if n = 0 then ?reg else ?reg(base \<mapsto> int (Suc c + n)))"
  proof -
    have "?reg base = Some (int (Suc c))" by simp
    then show ?thesis by (rule Suc.IH [of ?reg "Suc c"])
  qed
  have m: "map (\<lambda>k. numbered base (Suc c + k)) [0..<Suc n] =
     numbered base (Suc c) # map (\<lambda>k. numbered base (Suc (Suc c) + k)) [0..<n]"
    by (simp add: upt_shift del: upt_Suc)
  show ?case
    by (simp only: replicate_Suc resolve_all.simps r prod.case ih m) (auto simp del: upt_Suc)
qed

lemma numbered_inj: "numbered base j = numbered base k \<Longrightarrow> j = k"
  by (auto simp: numbered_def dest: str_int_inj_nat split: if_splits)

lemma upt_3: "[0..<3] = [0, 1, 2]"
  by (simp add: upt_rec)

lemma resolve_other: "n \<noteq> base \<Longrightarrow> snd (resolve reg n) base = reg base"
  by (simp add: resolve_def split: option.splits)

lemma results_for_Cons:
  "results_for base (n # ns) (r # rs) =
     (if n = base then r # results_for base ns rs else results_for base ns rs)"
  by (simp add: results_for_def)

lemma resolve_all_mixed_present:
  "reg base = Some (int c) \<Longrightarrow>
   results_for base ns (fst (resolve_all reg ns)) =
     map (\<lambda>k. numbered base (Suc c + k)) [0..<count_list ns base]"
proof (induction ns arbitrary: reg c)
  case Nil
  then show ?case by (simp add: results_for_def)
next
  case (Cons n ns)
  obtain r reg' where r: "resolve reg n = (r, reg')" by (cases "resolve reg n")
  obtain rs reg'' where rs: "resolve_all reg' ns = (rs, reg'')" by (cases "resolve_all reg' ns")
  have all: "fst (resolve_all reg (n # ns)) = r # rs" by (simp add: r rs)
  show ?case
  proof (cases "n = base")
    case True
    with Cons.prems r have r': "r = numbered base (Suc c)" "reg' = reg(base \<mapsto> int (Suc c))"
      by (simp_all add: resolve_present numbered_def add.commute)
    have "reg' base = Some (int (Suc c))" by (simp add: r')
    from Cons.IH [of reg' "Suc c", OF this] rs
    have "results_for base ns rs =
        map (\<lambda>k. numbered base (Suc (Suc c) + k)) [0..<count_list ns base]"
      by simp
    with True r' show ?thesis
      unfolding all results_for_Cons
      by (simp add: upt_shift del: upt_Suc)
  next
    case False
    with Cons.prems r have "reg' base = Some (int c)"
      using resolve_other [of n base reg] by simp
    from Cons.IH [of reg' c, OF this] rs False show ?thesis
      unfolding all results_for_Cons by simp
  qed
qed

lemma resolve_all_mixed:
  "reg base = None \<Longrightarrow>
   results_for base ns (fst (resolve_all reg ns)) = map (numbered base) [0..<count_list ns base]"
proof (induction ns arbitrary: reg)
  case Nil
  then show ?case by (simp add: results_for_def)
next
  case (Cons n ns)
  obtain r reg' where r: "resolve reg n = (r, reg')" by (cases "resolve reg n")
  obtain rs reg'' where rs: "resolve_all reg' ns = (rs, reg'')" by (cases "resolve_all reg' ns")
  have all: "fst (resolve_all reg (n # ns)) = r # rs" by (simp add: r rs)
  show ?case
  proof (cases "n = base")
    case True
    with Cons.prems r have r': "r = base" "reg' = reg(base \<mapsto> 0)"
      by (auto simp: resolve_absent)
    have "reg' base = Some (int 0)" by (simp add: r')
    from resolve_all_mixed_present [of reg' base 0 ns, OF this] rs
    have "results_for base ns rs = map (\<lambda>k. numbered base (Suc k)) [0..<count_list ns base]"
      by simp
    with True r' show ?thesis
      unfolding all results_for_Cons
      by (simp add: upt_shift numbered_def del: upt_Suc)
  next
    case False
    with Cons.prems r have "reg' base = None"
      using resolve_other [of n base reg] by simp
    from Cons.IH [of reg', OF this] rs False show ?thesis
      unfolding all results_for_Cons by simp
  qed
qed

text \<open>
  Claim C4. Starting from a registry that does not hold \<open>base\<close>, \<open>n\<close> successive
  calls with \<open>base\<close> return \<open>base\<close>, \<open>base_1\<close>, \<open>base_2\<close>, ... in call order (the first
  call unchanged, the \<open>k\<close>-th repeat with the suffix \<open>_k\<close>); these names are pairwise
  distinct, and the registry ends with the counter \<open>n - 1\<close> for \<open>base\<close> (0 after the first
  call). The same holds when calls with other names come in between: in any sequence of
  calls \<open>ns\<close>, the calls with \<open>base\<close> return \<open>base\<close>, \<open>base_1\<close>, ... in call order,
  pairwise distinct.
\<close>

theorem resolve_repeated:
  assumes "reg base = None"
  shows "fst (resolve_all reg (replicate n base)) = map (numbered base) [0..<n] \<and>
         distinct (fst (resolve_all reg (replicate n base))) \<and>
         snd (resolve_all reg (replicate n base)) =
           (if n = 0 then reg else reg(base \<mapsto> int n - 1)) \<and>
         results_for base ns (fst (resolve_all reg ns)) =
           map (numbered base) [0..<count_list ns base] \<and>
         distinct (results_for base ns (fst (resolve_all reg ns)))"
proof (cases n)
  case 0
  have inj: "inj_on (numbered base) (set [0..<k])" for k
    by (rule inj_onI) (rule numbered_inj)
  have "distinct (map (numbered base) [0..<count_list ns base])"
    using inj by (simp add: distinct_map)
  with 0 show ?thesis using resolve_all_mixed [of reg base ns, OF assms] by simp
next
  case (Suc m)
  let ?reg = "reg(base \<mapsto> 0)"
  have rest: "resolve_all ?reg (replicate m base) =
     (map (\<lambda>k. numbered base (Suc k)) [0..<m], if m = 0 then ?reg else ?reg(base \<mapsto> int m))"
    using resolve_all_present [of ?reg base 0 m] by simp
  have m: "map (numbered base) [0..<Suc m] =
     numbered base 0 # map (\<lambda>k. numbered base (Suc k)) [0..<m]"
    by (rule upt_shift)
  have all: "resolve_all reg (replicate n base) =
     (map (numbered base) [0..<n], reg(base \<mapsto> int n - 1))"
    by (simp only: Suc replicate_Suc resolve_all.simps resolve_absent [of reg base, OF assms]
          prod.case rest m)
       (auto simp: numbered_def simp del: upt_Suc)
  have inj: "inj_on (numbered base) (set [0..<k])" for k
    by (rule inj_onI) (rule numbered_inj)
  then have d: "distinct (map (numbered base) [0..<k])" for k
    by (simp add: distinct_map)
  have nz: "n \<noteq> 0" using Suc by simp
  show ?thesis using all nz d resolve_all_mixed [of reg base ns, OF assms] by simp
qed

text \<open>
  Three calls with the name \<open>Hit\<close> on the empty registry, in a row and with calls for
  another name in between.
\<close>

theorem resolve_repeated_witness:
  "fst (resolve_all Map.empty (replicate 3 ''Hit'')) = [''Hit'', ''Hit_1'', ''Hit_2''] \<and>
   fst (resolve_all Map.empty [''Hit'', ''Miss'', ''Hit'', ''Miss'', ''Hit'']) =
     [''Hit'', ''Miss'', ''Hit_1'', ''Miss_1'', ''Hit_2'']"
  using resolve_repeated [of Map.empty "''Hit''" 3]
  by (simp add: numbered_def resolve_def str_int_def str_nat.simps digit_char_def upt_3)

section \<open>Statistics\<close>

lemma sum_update:
  "distinct (map fst al) \<Longrightarrow>
   sum_list (map snd (AList.update k v al)) = sum_list (map snd al) - get0 al k + v"
proof (induction al)
  case Nil
  then show ?case by (simp add: get0_def)
next
  case (Cons p al)
  obtain k' v' where p: "p = (k', v')" by (cases p)
  show ?case
  proof (cases "k' = k")
    case True
    with Cons.prems p have "map_of al k = None"
      by (simp add: map_of_eq_None_iff)
    with True p show ?thesis by (simp add: get0_def)
  next
    case False
    with Cons p show ?thesis by (simp add: get0_def)
  qed
qed

lemma get0_update: "get0 (AList.update k v al) t = (if t = k then v else get0 al t)"
  by (simp add: get0_def update_conv')

lemma count_of_snoc:
  "count_of (as @ [a]) t = count_of as t + (if asset_type a = t then 1 else 0)"
  by (simp add: count_of_def)

lemma foldl_count_asset:
  "distinct (map fst bt) \<Longrightarrow>
   distinct (map fst (fst (foldl count_asset (bt, tot) as))) \<and>
   sum_list (map snd (fst (foldl count_asset (bt, tot) as))) =
     sum_list (map snd bt) + int (length as) \<and>
   (\<forall>t. get0 (fst (foldl count_asset (bt, tot) as)) t = get0 bt t + count_of as t) \<and>
   snd (foldl count_asset (bt, tot) as) = tot + sum_list (map sizeBytes as)"
proof (induction as rule: rev_induct)
  case Nil
  then show ?case by (simp add: count_of_def)
next
  case (snoc a as)
  obtain bt' tot' where f: "foldl count_asset (bt, tot) as = (bt', tot')"
    by (cases "foldl count_asset (bt, tot) as")
  from snoc f have d: "distinct (map fst bt')"
    and s: "sum_list (map snd bt') = sum_list (map snd bt) + int (length as)"
    and g: "\<And>t. get0 bt' t = get0 bt t + count_of as t"
    and t: "tot' = tot + sum_list (map sizeBytes as)"
    by simp_all
  have step: "foldl count_asset (bt, tot) (as @ [a]) =
      (AList.update (asset_type a) (get0 bt' (asset_type a) + 1) bt', tot' + sizeBytes a)"
    by (simp add: f count_asset_def)
  have c1: "distinct (map fst (fst (foldl count_asset (bt, tot) (as @ [a]))))"
    unfolding step using d by (simp add: distinct_update)
  have c2: "sum_list (map snd (fst (foldl count_asset (bt, tot) (as @ [a])))) =
      sum_list (map snd bt) + int (length (as @ [a]))"
    unfolding step using d s by (simp add: sum_update)
  have c3: "get0 (fst (foldl count_asset (bt, tot) (as @ [a]))) t =
      get0 bt t + count_of (as @ [a]) t" for t
    unfolding step by (simp add: get0_update g count_of_snoc)
  have c4: "snd (foldl count_asset (bt, tot) (as @ [a])) =
      tot + sum_list (map sizeBytes (as @ [a]))"
    unfolding step using t by simp
  show ?case using c1 c2 c3 c4 by blast
qed

text \<open>
  Claim C7. For every list of entries, the empty one included, \<open>build_stats\<close> returns
  \<open>total\<close> equal to the length of the list; the values of \<open>byType\<close> sum to \<open>total\<close>, each
  category appears once as a key and its value is the number of entries of that category
  (0 for a category that is no key); \<open>bundleCount\<close> is the number of distinct \<open>bundle\<close>
  values.
\<close>

theorem build_stats_counts:
  "stats_total (build_stats as) = int (length as) \<and>
   sum_list (map snd (byType (build_stats as))) = stats_total (build_stats as) \<and>
   distinct (map fst (byType (build_stats as))) \<and>
   (\<forall>t. get0 (byType (build_stats as)) t = count_of as t) \<and>
   bundleCount (build_stats as) = int (card (asset_bundle ` set as)) \<and>
   bundleCount (build_stats as) = int (length (remdups (map asset_bundle as)))"
proof -
  obtain bt tot where f: "foldl count_asset ([], 0) as = (bt, tot)"
    by (cases "foldl count_asset ([], 0) as")
  have b: "build_stats as =
      \<lparr>stats_total = int (length as), byType = bt, totalSize = fmt_bytes tot,
       bundleCount = int (card (set (map asset_bundle as)))\<rparr>"
    by (simp add: build_stats_def f)
  have inv: "distinct (map fst bt) \<and> sum_list (map snd bt) = int (length as) \<and>
      (\<forall>t. get0 bt t = count_of as t)"
    using foldl_count_asset [of "[]" 0 as] by (simp add: f get0_def)
  have "card (set (map asset_bundle as)) = length (remdups (map asset_bundle as))"
    by (rule List.card_set)
  then have "card (asset_bundle ` set as) = length (remdups (map asset_bundle as))"
    by simp
  then show ?thesis using inv by (simp add: b)
qed

section \<open>The loop body\<close>

lemma process_cases:
  "process st ob = st \<or>
   (\<exists>meta data m_name name seen.
      TYPE_META (type_name ob) = Some meta \<and> parse_as_object ob = Inr data \<and>
      m_Name data = Inr m_name \<and>
      resolve (seen_names st) (safe_name (Some (name_or_type ob m_name))) = (name, seen) \<and>
      ((process st ob = st\<lparr>seen_names := seen\<rparr> \<and>
          (makedirs_fault ob \<noteq> None \<or> export_asset ob data name = None)) \<or>
       (\<exists>content. makedirs_fault ob = None \<and> export_asset ob data name = Some content \<and>
          process st ob =
            \<lparr>assets = assets st @ [new_entry meta ob name content], seen_names = seen\<rparr>)))"
  unfolding process_def
  by (auto split: option.splits sum.splits prod.splits)

lemma utf8_char_nonempty: "utf8_char c \<noteq> []"
  by (simp add: utf8_char_def Let_def)

lemma utf8_nonempty: "s \<noteq> [] \<Longrightarrow> utf8 s \<noteq> []"
  by (cases s) (simp_all add: utf8_def utf8_char_nonempty)

lemma mesh_text_nonempty: "mesh_text name d = Some t \<Longrightarrow> t \<noteq> []"
  by (auto simp: mesh_text_def mesh_header_def Let_def split: option.splits)

lemma dump_json_nonempty: "dump_json ob = Some content \<Longrightarrow> content \<noteq> []"
  by (auto simp: dump_json_def utf8_nonempty split: sum.splits option.splits)

lemma find_nonempty:
  "find (\<lambda>(clip_name, clip_data). clip_data \<noteq> []) items = Some (n, d) \<Longrightarrow> d \<noteq> []"
  by (auto simp: find_Some_iff)

lemma export_asset_nonempty:
  assumes "export_asset ob data name = Some content"
  shows "content \<noteq> []"
proof -
  consider (img) "type_name ob = ''Texture2D'' \<or> type_name ob = ''Sprite''"
    | (audio) "type_name ob = ''AudioClip''"
    | (scr) "type_name ob = ''TextAsset''"
    | (mesh) "type_name ob = ''Mesh''"
    | (dump) "type_name ob \<noteq> ''Texture2D''" "type_name ob \<noteq> ''Sprite''"
        "type_name ob \<noteq> ''AudioClip''" "type_name ob \<noteq> ''TextAsset''" "type_name ob \<noteq> ''Mesh''"
    by blast
  then show ?thesis
  proof cases
    case img
    with assms show ?thesis
      by (auto simp: export_asset_def png_signature_def split: sum.splits option.splits)
  next
    case audio
    with assms show ?thesis
      by (auto simp: export_asset_def split: sum.splits option.splits dest: find_nonempty)
  next
    case scr
    with assms show ?thesis
      by (auto simp: export_asset_def Let_def utf8_nonempty
          split: sum.splits option.splits if_splits script.splits)
  next
    case mesh
    with assms show ?thesis
      by (auto simp: export_asset_def utf8_nonempty split: sum.splits option.splits
          dest!: mesh_text_nonempty)
  next
    case dump
    with assms have "dump_json ob = Some content"
      by (auto simp: export_asset_def split: if_splits)
    then show ?thesis by (rule dump_json_nonempty)
  qed
qed


lemma raises_before_naming_process: "raises_before_naming ob \<Longrightarrow> process st ob = st"
  unfolding raises_before_naming_def process_def
  by (simp split: sum.splits option.splits)








lemma foldl_process_skip:
  "raises_before_naming bad \<Longrightarrow>
   foldl process st (xs @ bad # ys) = foldl process st (xs @ ys)"
  by (simp add: raises_before_naming_process)

lemma process_invariant:
  assumes old: "\<And>a. a \<in> set (assets st) \<Longrightarrow> Q a"
    and new: "\<And>meta data m_name name seen content.
        TYPE_META (type_name ob) = Some meta \<Longrightarrow> parse_as_object ob = Inr data \<Longrightarrow>
        m_Name data = Inr m_name \<Longrightarrow>
        resolve (seen_names st) (safe_name (Some (name_or_type ob m_name))) = (name, seen) \<Longrightarrow>
        export_asset ob data name = Some content \<Longrightarrow> Q (new_entry meta ob name content)"
    and a: "a \<in> set (assets (process st ob))"
  shows "Q a"
proof -
  from process_cases [of st ob]
  consider (same) "assets (process st ob) = assets st"
    | (added) meta data m_name name seen content where
        "TYPE_META (type_name ob) = Some meta" "parse_as_object ob = Inr data"
        "m_Name data = Inr m_name"
        "resolve (seen_names st) (safe_name (Some (name_or_type ob m_name))) = (name, seen)"
        "export_asset ob data name = Some content"
        "assets (process st ob) = assets st @ [new_entry meta ob name content]"
    by fastforce
  then show ?thesis
  proof cases
    case same
    with a old show ?thesis by simp
  next
    case added
    from a added(6) have "a \<in> set (assets st) \<or> a = new_entry meta ob name content" by auto
    then show ?thesis
    proof
      assume "a \<in> set (assets st)"
      then show ?thesis by (rule old)
    next
      assume "a = new_entry meta ob name content"
      then show ?thesis using new [OF added(1-5)] by simp
    qed
  qed
qed

lemma foldl_process_invariant:
  assumes old: "\<And>a. a \<in> set (assets st) \<Longrightarrow> Q a"
    and new: "\<And>ob meta data m_name reg name seen content.
        TYPE_META (type_name ob) = Some meta \<Longrightarrow> parse_as_object ob = Inr data \<Longrightarrow>
        m_Name data = Inr m_name \<Longrightarrow>
        resolve reg (safe_name (Some (name_or_type ob m_name))) = (name, seen) \<Longrightarrow>
        export_asset ob data name = Some content \<Longrightarrow> Q (new_entry meta ob name content)"
  shows "a \<in> set (assets (foldl process st objs)) \<Longrightarrow> Q a"
proof (induction objs arbitrary: a rule: rev_induct)
  case Nil
  then show ?case using old by simp
next
  case (snoc ob objs)
  from snoc.prems have "a \<in> set (assets (process (foldl process st objs) ob))" by simp
  then show ?case
  proof (rule process_invariant [rotated 2])
    fix b
    assume "b \<in> set (assets (foldl process st objs))"
    then show "Q b" by (rule snoc.IH)
  next
    fix meta data m_name name seen content
    assume "TYPE_META (type_name ob) = Some meta" "parse_as_object ob = Inr data"
      "m_Name data = Inr m_name"
      "resolve (seen_names (foldl process st objs)) (safe_name (Some (name_or_type ob m_name))) =
         (name, seen)"
      "export_asset ob data name = Some content"
    then show "Q (new_entry meta ob name content)" by (rule new)
  qed
qed

lemma extract_apk_Inr:
  "extract_apk w apk_path out_dir = Inr as \<Longrightarrow>
   \<exists>env. load w apk_path = Inr env \<and> as = assets (foldl process init_state (objects env))"
  by (auto simp: extract_apk_def Let_def split: option.splits sum.splits)

section \<open>Evaluation\<close>

lemmas sample_defs = audio_clip_def audio_payload_def blank_obj_def blank_payload_def
  blank_tree_def broken_texture_def attribute_error_def world_of_def loaded_def
  colliding_clips_def triangle_tree_def triangle_mesh_def silent_error_def
  missing_file_error_def texture_def

lemmas run_defs = process_def TYPE_META_def TYPE_META_rows_def name_or_type_def safe_name_def
  strip_def keep_char_def isalnum_def isspace_def resolve_def export_asset_def new_entry_def
  path_join_def init_state_def str_int_def str_nat.simps digit_char_def fmt_bytes_def Let_def

section \<open>Isolation of a failing object\<close>







section \<open>Collision of deduplicated names\<close>

text \<open>
  Claim C2. Two entries of one category are expected to have distinct file names. The
  registry holds the base names only, not the names it hands out: after \<open>a\<close> and \<open>a\<close>
  have given \<open>a\<close> and \<open>a_1\<close>, an object named \<open>a_1\<close> is new to the registry and keeps
  its name. The run on three such audio clips returns two entries of category \<open>audio\<close>
  with the file name \<open>a_1.wav\<close> and the relative path \<open>audio/a_1.wav\<close>.
\<close>

theorem dedup_collision:
  "extract_apk (loaded colliding_clips) ''game.apk'' ''out'' =
     Inr (assets (foldl process init_state colliding_clips)) \<and>
   map asset_type (assets (foldl process init_state colliding_clips)) =
     [''audio'', ''audio'', ''audio''] \<and>
   map filename (assets (foldl process init_state colliding_clips)) =
     [''a.wav'', ''a_1.wav'', ''a_1.wav''] \<and>
   map relativePath (assets (foldl process init_state colliding_clips)) =
     [''audio/a.wav'', ''audio/a_1.wav'', ''audio/a_1.wav''] \<and>
   \<not> distinct (map filename (assets (foldl process init_state colliding_clips)))"
proof -
  have e: "extract_apk (loaded colliding_clips) ''game.apk'' ''out'' =
     Inr (assets (foldl process init_state colliding_clips))"
    by (simp add: extract_apk_def loaded_def world_of_def)
  have t: "map asset_type (assets (foldl process init_state colliding_clips)) =
     [''audio'', ''audio'', ''audio'']"
    by (simp add: sample_defs run_defs)
  have f: "map filename (assets (foldl process init_state colliding_clips)) =
     [''a.wav'', ''a_1.wav'', ''a_1.wav'']"
    by (simp add: sample_defs run_defs)
  have r: "map relativePath (assets (foldl process init_state colliding_clips)) =
     [''audio/a.wav'', ''audio/a_1.wav'', ''audio/a_1.wav'']"
    by (simp add: sample_defs run_defs)
  have d: "\<not> distinct (map filename (assets (foldl process init_state colliding_clips)))"
    unfolding f by simp
  show ?thesis using e t f r d by blast
qed

section \<open>Sizes of the entries\<close>

lemma sizeBytes_new_entry: "sizeBytes (new_entry meta ob name content) = int (length content)"
  by (simp add: new_entry_def Let_def)

text \<open>
  Claim C5. An object whose export step fails, or would leave a file of zero bytes,
  gets no entry: the list of entries is unchanged. The second case never occurs, since
  every branch that sets \<open>wrote\<close> has written at least one byte (the PNG signature, a
  non-empty sample or script, the braces of the dump, the header of the mesh file); so
  the export of such an object is a failed one, and no entry of any run has \<open>sizeBytes\<close>
  equal to 0.
\<close>

theorem failed_export_gives_no_entry:
  assumes "parse_as_object ob = Inr data" and "m_Name data = Inr m_name"
    and "resolve (seen_names st) (safe_name (Some (name_or_type ob m_name))) = (name, seen)"
    and "export_asset ob data name = None \<or> export_asset ob data name = Some []"
  shows "assets (process st ob) = assets st \<and>
         export_asset ob data name = None \<and>
         (\<forall>a \<in> set (assets (foldl process init_state objs)). 0 < sizeBytes a) \<and>
         (\<forall>w apk_path out_dir as. extract_apk w apk_path out_dir = Inr as \<longrightarrow>
            (\<forall>a \<in> set as. 0 < sizeBytes a))"
proof -
  have none: "export_asset ob data name = None"
    using assms(4) export_asset_nonempty [of ob data name "[]"] by auto
  have same: "assets (process st ob) = assets st"
    using assms(1-3) none by (simp add: process_def split: option.splits)
  have pos: "0 < sizeBytes a" if "a \<in> set (assets (foldl process init_state objs'))" for a objs'
    using _ _ that
  proof (rule foldl_process_invariant)
    fix b
    assume "b \<in> set (assets init_state)"
    then show "0 < sizeBytes b" by (simp add: init_state_def)
  next
    fix ob' meta data' m_name' reg name' seen' content
    assume "export_asset ob' data' name' = Some content"
    then have "content \<noteq> []" by (rule export_asset_nonempty)
    then show "0 < sizeBytes (new_entry meta ob' name' content)"
      by (simp add: sizeBytes_new_entry)
  qed
  have ext: "\<forall>w apk_path out_dir as. extract_apk w apk_path out_dir = Inr as \<longrightarrow>
      (\<forall>a \<in> set as. 0 < sizeBytes a)"
    using pos by (auto dest!: extract_apk_Inr)
  show ?thesis using none same pos ext by blast
qed

text \<open>
  A clip whose only sample is empty gets no entry; a clip with a sample of three bytes
  gets an entry of size 3.
\<close>

theorem failed_export_gives_no_entry_witness:
  "assets (process init_state (audio_clip ''Hit'' [])) = [] \<and>
   export_asset (audio_clip ''Hit'' []) (audio_payload ''Hit'' []) ''Hit'' = None \<and>
   map sizeBytes (assets (foldl process init_state [audio_clip ''Hit'' [1, 2, 3]])) = [3]"
proof -
  have p: "parse_as_object (audio_clip ''Hit'' []) = Inr (audio_payload ''Hit'' [])"
    by (simp add: sample_defs)
  have n: "m_Name (audio_payload ''Hit'' []) = Inr (Some ''Hit'')"
    by (simp add: sample_defs)
  have r: "resolve (seen_names init_state)
      (safe_name (Some (name_or_type (audio_clip ''Hit'' []) (Some ''Hit'')))) =
      (''Hit'', [''Hit'' \<mapsto> 0])"
    by (simp add: sample_defs run_defs)
  have x: "export_asset (audio_clip ''Hit'' []) (audio_payload ''Hit'' []) ''Hit'' = None \<or>
      export_asset (audio_clip ''Hit'' []) (audio_payload ''Hit'' []) ''Hit'' = Some []"
    by (simp add: sample_defs run_defs)
  have s: "map sizeBytes (assets (foldl process init_state [audio_clip ''Hit'' [1, 2, 3]])) = [3]"
    by (simp add: sample_defs run_defs)
  from failed_export_gives_no_entry [OF p n r x] s
  show ?thesis by (simp add: init_state_def)
qed

section \<open>The mesh file\<close>

lemma length_three:
  assumes "length xs = 3 * Suc n"
  obtains x y z rest where "xs = x # y # z # rest" "length rest = 3 * n"
proof -
  from assms obtain x xs1 where 1: "xs = x # xs1" by (cases xs) auto
  with assms obtain y xs2 where 2: "xs1 = y # xs2" by (cases xs1) auto
  with 1 assms obtain z rest where 3: "xs2 = z # rest" by (cases xs2) auto
  from 1 2 3 assms have "length rest = 3 * n" by simp
  with 1 2 3 that show ?thesis by blast
qed

lemma vertex_lines_triples:
  "length verts = 3 * n \<Longrightarrow>
   vertex_lines verts = Some (map (\<lambda>(x, y, z). v_line x y z) (triples verts)) \<and>
   length (triples verts) = n"
proof (induction n arbitrary: verts)
  case 0
  then show ?case by simp
next
  case (Suc n)
  from Suc.prems obtain x y z rest where v: "verts = x # y # z # rest" "length rest = 3 * n"
    by (rule length_three)
  from Suc.IH [OF v(2)] show ?case by (simp add: v(1))
qed

lemma face_lines_triples:
  "length indices = 3 * m \<Longrightarrow>
   face_lines indices = Some (map (\<lambda>(a, b, c). f_line a b c) (triples indices)) \<and>
   length (triples indices) = m"
proof (induction m arbitrary: indices)
  case 0
  then show ?case by simp
next
  case (Suc m)
  from Suc.prems obtain a b c rest where v: "indices = a # b # c # rest" "length rest = 3 * m"
    by (rule length_three)
  from Suc.IH [OF v(2)] show ?case by (simp add: v(1))
qed

text \<open>
  Claim C6, amended. For a mesh object whose dictionary holds a flat vertex array of
  \<open>3n\<close> numbers and a flat index array of \<open>3m\<close> indices (a missing array counting as
  empty), and whose destination can be opened, the exporter writes a text file that
  starts with two comment lines, \<open># Exported by UnityRip\<close> and \<open># Mesh:\<close> with the name
  of the mesh, followed by exactly one line \<open>v x y z\<close> per vertex and then exactly one
  line \<open>f i1+1 i2+1 i3+1\<close> per triangle, each index moved from zero-based to one-based.
\<close>

theorem mesh_file_format:
  assumes "type_name ob = ''Mesh''" and "parse_as_dict ob = Inr mesh_data"
    and "open_fault ob = None"
    and "verts = (case m_Vertices mesh_data of None \<Rightarrow> [] | Some vs \<Rightarrow> vs)"
    and "indices = (case m_IndexBuffer mesh_data of None \<Rightarrow> [] | Some ixs \<Rightarrow> ixs)"
    and "length verts = 3 * n" and "length indices = 3 * m"
  shows "export_asset ob data name =
           Some (utf8 (''# Exported by UnityRip'' @ [newline] @ ''# Mesh: '' @ name @ [newline] @
             concat (map (\<lambda>(x, y, z).
                 ''v '' @ str_num x @ '' '' @ str_num y @ '' '' @ str_num z @ [newline])
               (triples verts)) @
             concat (map (\<lambda>(a, b, c).
                 ''f '' @ str_int (a + 1) @ '' '' @ str_int (b + 1) @ '' '' @ str_int (c + 1) @
                 [newline])
               (triples indices)))) \<and>
         length (triples verts) = n \<and> length (triples indices) = m"
proof -
  have v: "vertex_lines verts = Some (map (\<lambda>(x, y, z). v_line x y z) (triples verts))"
    and vn: "length (triples verts) = n"
    using vertex_lines_triples [OF assms(6)] by simp_all
  have f: "face_lines indices = Some (map (\<lambda>(a, b, c). f_line a b c) (triples indices))"
    and fn: "length (triples indices) = m"
    using face_lines_triples [OF assms(7)] by simp_all
  have t: "mesh_text name mesh_data =
      Some (mesh_header name @ concat (map (\<lambda>(x, y, z). v_line x y z) (triples verts)) @
        concat (map (\<lambda>(a, b, c). f_line a b c) (triples indices)))"
    using v f by (simp add: mesh_text_def assms(4,5) [symmetric])
  have vl: "(\<lambda>(x, y, z). v_line x y z) =
      (\<lambda>(x, y, z). ''v '' @ str_num x @ '' '' @ str_num y @ '' '' @ str_num z @ [newline])"
    by (simp add: v_line_def fun_eq_iff)
  have fl: "(\<lambda>(a, b, c). f_line a b c) =
      (\<lambda>(a, b, c). ''f '' @ str_int (a + 1) @ '' '' @ str_int (b + 1) @ '' '' @
         str_int (c + 1) @ [newline])"
    by (simp add: f_line_def fun_eq_iff)
  have "export_asset ob data name = map_option utf8 (mesh_text name mesh_data)"
    using assms(1-3) by (simp add: export_asset_def)
  then show ?thesis
    unfolding t vl fl using vn fn by (simp add: mesh_header_def)
qed

text \<open>The file of a mesh of one triangle.\<close>

theorem mesh_file_format_witness:
  "export_asset triangle_mesh blank_payload ''tri'' =
     Some (utf8 (''# Exported by UnityRip'' @ [newline] @ ''# Mesh: tri'' @ [newline] @
       ''v 0.0 0.0 0.0'' @ [newline] @ ''v 1.0 0.0 0.0'' @ [newline] @
       ''v 0.0 1.5 0.0'' @ [newline] @ ''f 1 2 3'' @ [newline]))"
proof -
  have h1: "type_name triangle_mesh = ''Mesh''" by (simp add: sample_defs)
  have h2: "parse_as_dict triangle_mesh = Inr triangle_tree" by (simp add: sample_defs)
  have h3: "open_fault triangle_mesh = None" by (simp add: sample_defs)
  have h4: "[PyFloat ''0.0'', PyFloat ''0.0'', PyFloat ''0.0'',
             PyFloat ''1.0'', PyFloat ''0.0'', PyFloat ''0.0'',
             PyFloat ''0.0'', PyFloat ''1.5'', PyFloat ''0.0''] =
      (case m_Vertices triangle_tree of None \<Rightarrow> [] | Some vs \<Rightarrow> vs)"
    by (simp add: sample_defs)
  have h5: "[0, 1, 2] = (case m_IndexBuffer triangle_tree of None \<Rightarrow> [] | Some ixs \<Rightarrow> ixs)"
    by (simp add: sample_defs)
  have h6: "length [PyFloat ''0.0'', PyFloat ''0.0'', PyFloat ''0.0'',
             PyFloat ''1.0'', PyFloat ''0.0'', PyFloat ''0.0'',
             PyFloat ''0.0'', PyFloat ''1.5'', PyFloat ''0.0''] = 3 * 3"
    by simp
  have h7: "length [0, 1, 2 :: int] = 3 * 1" by simp
  from mesh_file_format [OF h1 h2 h3 h4 h5 h6 h7, of blank_payload "''tri''"]
  show ?thesis by (simp add: str_int_def str_nat.simps digit_char_def)
qed

text \<open>
  Claim C6 as stated has the file consist of the \<open>v\<close> and \<open>f\<close> lines only. The file of
  the triangle starts with the two comment lines, so it is not the text made of its three
  \<open>v\<close> lines and its \<open>f\<close> line.
\<close>

theorem mesh_file_starts_with_header:
  "mesh_text ''tri'' triangle_tree =
     Some (''# Exported by UnityRip'' @ [newline] @ ''# Mesh: tri'' @ [newline] @
       ''v 0.0 0.0 0.0'' @ [newline] @ ''v 1.0 0.0 0.0'' @ [newline] @
       ''v 0.0 1.5 0.0'' @ [newline] @ ''f 1 2 3'' @ [newline]) \<and>
   mesh_text ''tri'' triangle_tree \<noteq>
     Some (''v 0.0 0.0 0.0'' @ [newline] @ ''v 1.0 0.0 0.0'' @ [newline] @
       ''v 0.0 1.5 0.0'' @ [newline] @ ''f 1 2 3'' @ [newline]) \<and>
   export_asset triangle_mesh blank_payload ''tri'' =
     map_option utf8 (mesh_text ''tri'' triangle_tree)"
  by (simp add: mesh_text_def mesh_header_def v_line_def f_line_def sample_defs
      export_asset_def str_int_def str_nat.simps digit_char_def)

section \<open>The manifest of a failed run\<close>

text \<open>
  Claim C9, amended. When the archive cannot be loaded, or the iteration over its objects
  ends with an error, and the manifest can be written, the manifest has \<open>ok\<close> false, its
  \<open>error\<close> is \<open>str(e)\<close> of the exception (empty for an exception raised without a message),
  its \<open>trace\<close> is the formatted traceback, which is never empty, and the exit code is 1.
  Conversely, every run that writes a manifest with \<open>ok\<close> true exits with 0.
\<close>

theorem fatal_failure_manifest:
  assumes "4 \<le> length argv"
    and "makedirs_out w (argv ! 2) = None"
    and "load w (argv ! 1) = Inl e \<or>
         (\<exists>objs. load w (argv ! 1) = Inr \<lparr>objects = objs, iter_fault = Some e\<rparr>)"
    and "manifest_fault w (argv ! 3) = None"
  shows "main w argv = (Some (Failure (exn_str e) (format_exc e)), 1) \<and>
         \<not> ok (Failure (exn_str e) (format_exc e)) \<and>
         format_exc e \<noteq> [] \<and>
         (\<forall>w' argv' m code. main w' argv' = (Some m, code) \<and> ok m \<longrightarrow> code = 0)"
proof -
  have x: "extract_apk w (argv ! 1) (argv ! 2) = Inl e"
    using assms(2,3) by (auto simp: extract_apk_def)
  have m: "main w argv = (Some (Failure (exn_str e) (format_exc e)), 1)"
    using assms(1,4) x by (simp add: main_def)
  have t: "format_exc e \<noteq> []" by (simp add: format_exc_def)
  have c: "\<forall>w' argv' m code. main w' argv' = (Some m, code) \<and> ok m \<longrightarrow> code = 0"
    by (auto simp: main_def Let_def split: if_splits option.splits sum.splits)
  show ?thesis using m t c by simp
qed

text \<open>
  A load that raises \<open>FileNotFoundError\<close> with a message, and the run on an archive
  without objects.
\<close>

theorem fatal_failure_manifest_witness:
  "main (world_of (Inl missing_file_error))
     [''extract.py'', ''game.apk'', ''out'', ''out/manifest.json''] =
     (Some (Failure ''No such file: game.apk''
        (''Traceback (most recent call last):'' @ [newline] @
         ''FileNotFoundError: No such file: game.apk'' @ [newline])), 1) \<and>
   main (loaded []) [''extract.py'', ''game.apk'', ''out'', ''out/manifest.json''] =
     (Some (Success [] (build_stats [])), 0)"
proof -
  let ?argv = "[''extract.py'', ''game.apk'', ''out'', ''out/manifest.json'']"
  let ?w = "world_of (Inl missing_file_error)"
  have h1: "4 \<le> length ?argv" by simp
  have h2: "makedirs_out ?w (?argv ! 2) = None" by (simp add: world_of_def)
  have h3: "load ?w (?argv ! 1) = Inl missing_file_error \<or>
      (\<exists>objs. load ?w (?argv ! 1) = Inr \<lparr>objects = objs, iter_fault = Some missing_file_error\<rparr>)"
    by (simp add: world_of_def)
  have h4: "manifest_fault ?w (?argv ! 3) = None" by (simp add: world_of_def)
  have s: "main (loaded []) ?argv = (Some (Success [] (build_stats [])), 0)"
    by (simp add: main_def extract_apk_def loaded_def world_of_def init_state_def)
  from fatal_failure_manifest [OF h1 h2 h3 h4] s
  show ?thesis by (simp add: format_exc_def missing_file_error_def)
qed

text \<open>
  Claim C9 as stated has the error message non-empty. A load that raises an
  \<open>AssertionError\<close> without a message gives a manifest whose \<open>error\<close> is the empty string.
\<close>

theorem fatal_failure_empty_error:
  "main (world_of (Inl silent_error))
     [''extract.py'', ''game.apk'', ''out'', ''out/manifest.json''] =
     (Some (Failure []
        (''Traceback (most recent call last):'' @ [newline] @ ''AssertionError'' @ [newline])), 1)"
  by (simp add: main_def extract_apk_def world_of_def silent_error_def format_exc_def)

section \<open>Consistency of the entry fields\<close>

lemma str_nat_digits: "c \<in> set (str_nat n) \<Longrightarrow> c \<in> set ''0123456789''"
proof (induction n rule: str_nat.induct)
  case (1 n)
  have d: "digit_char k \<in> set ''0123456789''" if "k < 10" for k
  proof -
    from that have "k \<in> {0, 1, 2, 3, 4, 5, 6, 7, 8, 9}" by auto
    then show ?thesis by (auto simp: digit_char_def)
  qed
  show ?case
  proof (cases "n < 10")
    case True
    with "1.prems" have "c = digit_char n" by (simp add: str_nat_small)
    with True d show ?thesis by blast
  next
    case False
    with "1.prems" have "c \<in> set (str_nat (n div 10)) \<or> c = digit_char (n mod 10)"
      by (auto simp: str_nat_big)
    then show ?thesis
    proof
      assume "c \<in> set (str_nat (n div 10))"
      with False "1.IH" show ?thesis by blast
    next
      assume "c = digit_char (n mod 10)"
      then show ?thesis using d [of "n mod 10"] by simp
    qed
  qed
qed

lemma slash_not_in_str_int: "CHR ''/'' \<notin> set (str_int i)"
proof
  assume "CHR ''/'' \<in> set (str_int i)"
  then have "CHR ''/'' \<in> set (str_nat (nat (- i))) \<or> CHR ''/'' \<in> set (str_nat (nat i))"
    by (auto simp: str_int_def split: if_splits)
  then have "CHR ''/'' \<in> set ''0123456789''" using str_nat_digits by blast
  then show False by simp
qed

lemma slash_not_kept: "\<not> keep_char (CHR ''/'')"
  by (simp add: keep_char_def isalnum_def)

lemma slash_not_in_safe_name: "CHR ''/'' \<notin> set (safe_name n)"
  using safe_name_chars [of "CHR ''/''" n] slash_not_kept by blast

lemma slash_not_in_resolved:
  "resolve reg (safe_name n) = (name, seen) \<Longrightarrow> CHR ''/'' \<notin> set name"
  using slash_not_in_safe_name [of n] slash_not_in_str_int
  by (auto simp: resolve_def split: option.splits)

lemma TYPE_META_type:
  "TYPE_META t = Some meta \<Longrightarrow> meta_type meta \<noteq> [] \<and> last (meta_type meta) \<noteq> CHR ''/''"
  unfolding TYPE_META_def TYPE_META_rows_def
  by (auto split: if_splits)

lemma path_join_plain:
  assumes "a \<noteq> []" "last a \<noteq> CHR ''/''" "b \<noteq> []" "hd b \<noteq> CHR ''/''"
  shows "path_join a b = a @ ''/'' @ b"
  using assms by (simp add: path_join_def)

lemma new_entry_consistent:
  assumes m: "TYPE_META (type_name ob) = Some meta"
    and r: "resolve reg (safe_name n) = (name, seen)"
  shows "filename (new_entry meta ob name content) =
           asset_name (new_entry meta ob name content) @ ''.'' @
           asset_ext (new_entry meta ob name content) \<and>
         relativePath (new_entry meta ob name content) =
           path_join (asset_type (new_entry meta ob name content))
             (filename (new_entry meta ob name content)) \<and>
         relativePath (new_entry meta ob name content) =
           asset_type (new_entry meta ob name content) @ ''/'' @
           filename (new_entry meta ob name content) \<and>
         TYPE_META (unityType (new_entry meta ob name content)) =
           Some \<lparr>meta_type = asset_type (new_entry meta ob name content),
                 meta_emoji = asset_emoji (new_entry meta ob name content),
                 meta_ext = asset_ext (new_entry meta ob name content)\<rparr>"
proof -
  let ?f = "name @ ''.'' @ meta_ext meta"
  have "CHR ''/'' \<notin> set name" using r by (rule slash_not_in_resolved)
  then have "hd ?f \<noteq> CHR ''/''" by (cases name) auto
  moreover have "?f \<noteq> []" by simp
  ultimately have "path_join (meta_type meta) ?f = meta_type meta @ ''/'' @ ?f"
    using TYPE_META_type [OF m] by (intro path_join_plain) simp_all
  then show ?thesis using m by (simp add: new_entry_def Let_def)
qed

text \<open>
  Claim C10. Every entry of a run has \<open>filename\<close> equal to \<open>name\<close>, a dot and \<open>ext\<close>;
  \<open>relativePath\<close> is \<open>os.path.join\<close> of the category and \<open>filename\<close>, which is the
  category, a slash and \<open>filename\<close>; and the row of \<open>TYPE_META\<close> for the entry's
  \<open>unityType\<close> holds exactly the entry's \<open>type\<close>, \<open>emoji\<close> and \<open>ext\<close>.
\<close>

theorem entry_fields_consistent:
  assumes "extract_apk w apk_path out_dir = Inr as" and "a \<in> set as"
  shows "filename a = asset_name a @ ''.'' @ asset_ext a \<and>
         relativePath a = path_join (asset_type a) (filename a) \<and>
         relativePath a = asset_type a @ ''/'' @ filename a \<and>
         TYPE_META (unityType a) =
           Some \<lparr>meta_type = asset_type a, meta_emoji = asset_emoji a, meta_ext = asset_ext a\<rparr>"
proof -
  from extract_apk_Inr [OF assms(1)] obtain env :: source where
    "as = assets (foldl process init_state (objects env))" by blast
  with assms(2) have "a \<in> set (assets (foldl process init_state (objects env)))" by simp
  with _ _ show ?thesis
  proof (rule foldl_process_invariant)
    fix b
    assume "b \<in> set (assets init_state)"
    then show "filename b = asset_name b @ ''.'' @ asset_ext b \<and>
         relativePath b = path_join (asset_type b) (filename b) \<and>
         relativePath b = asset_type b @ ''/'' @ filename b \<and>
         TYPE_META (unityType b) =
           Some \<lparr>meta_type = asset_type b, meta_emoji = asset_emoji b, meta_ext = asset_ext b\<rparr>"
      by (simp add: init_state_def)
  next
    fix ob meta data m_name reg name seen content
    assume "TYPE_META (type_name ob) = Some meta"
      and "resolve reg (safe_name (Some (name_or_type ob m_name))) = (name, seen)"
    then show "filename (new_entry meta ob name content) =
           asset_name (new_entry meta ob name content) @ ''.'' @
           asset_ext (new_entry meta ob name content) \<and>
         relativePath (new_entry meta ob name content) =
           path_join (asset_type (new_entry meta ob name content))
             (filename (new_entry meta ob name content)) \<and>
         relativePath (new_entry meta ob name content) =
           asset_type (new_entry meta ob name content) @ ''/'' @
           filename (new_entry meta ob name content) \<and>
         TYPE_META (unityType (new_entry meta ob name content)) =
           Some \<lparr>meta_type = asset_type (new_entry meta ob name content),
                 meta_emoji = asset_emoji (new_entry meta ob name content),
                 meta_ext = asset_ext (new_entry meta ob name content)\<rparr>"
      by (rule new_entry_consistent)
  qed
qed

text \<open>The entry of a clip named \<open>Hit\<close>, with the relative path \<open>audio/Hit.wav\<close>.\<close>

theorem entry_fields_consistent_witness:
  "extract_apk (loaded [audio_clip ''Hit'' [1]]) ''game.apk'' ''out'' =
     Inr [new_entry \<lparr>meta_type = ''audio'', meta_emoji = [0x1F50A], meta_ext = ''wav''\<rparr>
            (audio_clip ''Hit'' [1]) ''Hit'' [1]] \<and>
   relativePath (new_entry \<lparr>meta_type = ''audio'', meta_emoji = [0x1F50A], meta_ext = ''wav''\<rparr>
            (audio_clip ''Hit'' [1]) ''Hit'' [1]) = ''audio/Hit.wav''"
proof -
  let ?a = "new_entry \<lparr>meta_type = ''audio'', meta_emoji = [0x1F50A], meta_ext = ''wav''\<rparr>
            (audio_clip ''Hit'' [1]) ''Hit'' [1]"
  have e: "extract_apk (loaded [audio_clip ''Hit'' [1]]) ''game.apk'' ''out'' = Inr [?a]"
    by (simp add: extract_apk_def sample_defs run_defs)
  have m: "?a \<in> set [?a]" by simp
  from entry_fields_consistent [OF e m]
  have "relativePath ?a = asset_type ?a @ ''/'' @ filename ?a" by blast
  then show ?thesis using e by (simp add: new_entry_def Let_def)
qed

section \<open>Scenarios of the specification\<close>

text \<open>
  A texture named \<open>Icon!\<close> with a valid image gives the entry \<open>Icon_\<close> with the file
  \<open>texture/Icon_.png\<close>; two audio clips named \<open>Hit\<close> give \<open>audio/Hit.wav\<close> and
  \<open>audio/Hit_1.wav\<close>.
\<close>

lemma scenario_icon:
  "map relativePath (assets (foldl process init_state [texture ''Icon!'' [0]])) =
     [''texture/Icon_.png''] \<and>
   map asset_name (assets (foldl process init_state [texture ''Icon!'' [0]])) = [''Icon_''] \<and>
   map sizeBytes (assets (foldl process init_state [texture ''Icon!'' [0]])) = [9]"
  by (simp add: sample_defs run_defs png_signature_def)

lemma scenario_two_hits:
  "map relativePath
     (assets (foldl process init_state [audio_clip ''Hit'' [1], audio_clip ''Hit'' [2]])) =
     [''audio/Hit.wav'', ''audio/Hit_1.wav'']"
  by (simp add: sample_defs run_defs)

end
